theory Spec2Isabelle
  imports Complex_Main "HOL-Library.Product_Lexorder" "HOL-Library.Sublist"
begin

section \<open>The Lamport clock (common/lamport\_clock.py)\<close>

text \<open>
  \<open>LamportClock\<close> holds one unbounded Python integer, \<open>_time\<close>. Every method takes
  the clock's own lock, so each call is one atomic step: it is modelled as a function from
  the clock before the call to the returned value and the clock after it.
\<close>

record lamport_clock =
  time :: int

definition new_clock :: lamport_clock where
  "new_clock = \<lparr>time = 0\<rparr>"

definition tick :: "lamport_clock \<Rightarrow> int \<times> lamport_clock" where
  "tick c = (let c' = c\<lparr>time := time c + 1\<rparr> in (time c', c'))"

definition send_event :: "lamport_clock \<Rightarrow> int \<times> lamport_clock" where
  "send_event c = tick c"

definition receive_event :: "int \<Rightarrow> lamport_clock \<Rightarrow> int \<times> lamport_clock" where
  "receive_event received_timestamp c =
     (let c' = c\<lparr>time := max (time c) received_timestamp + 1\<rparr> in (time c', c'))"

definition get_time :: "lamport_clock \<Rightarrow> int \<times> lamport_clock" where
  "get_time c = (time c, c)"

definition update :: "int \<Rightarrow> lamport_clock \<Rightarrow> int \<times> lamport_clock" where
  "update new_time c = (let c' = c\<lparr>time := new_time\<rparr> in (time c', c'))"

text \<open>
  A sequence of calls on one clock: the public interface as a datatype of operations, and
  the list of the values the calls return, in call order.
\<close>

datatype clock_op = Tick | Send_event | Receive_event int | Get_time | Update int

fun apply_op :: "clock_op \<Rightarrow> lamport_clock \<Rightarrow> int \<times> lamport_clock" where
  "apply_op Tick c = tick c"
| "apply_op Send_event c = send_event c"
| "apply_op (Receive_event t) c = receive_event t c"
| "apply_op Get_time c = get_time c"
| "apply_op (Update t) c = update t c"

fun run_ops :: "clock_op list \<Rightarrow> lamport_clock \<Rightarrow> int list" where
  "run_ops [] c = []"
| "run_ops (op # ops) c = (let (t, c') = apply_op op c in t # run_ops ops c')"

fun advances :: "clock_op \<Rightarrow> bool" where
  "advances Tick = True"
| "advances Send_event = True"
| "advances (Receive_event t) = True"
| "advances Get_time = False"
| "advances (Update t) = False"

fun is_update :: "clock_op \<Rightarrow> bool" where
  "is_update (Update t) = True"
| "is_update op = False"


section \<open>Python strings of integers and substring search\<close>

text \<open>
  \<open>str(n)\<close> for an integer (decimal digits, a leading minus sign for a negative
  number) and \<open>sub in text\<close> for strings, both used by the f-strings of the source.
\<close>

definition digit_char :: "nat \<Rightarrow> char" where
  "digit_char d = ''0123456789'' ! d"

function str_nat :: "nat \<Rightarrow> string" where
  "str_nat n = (if n < 10 then [digit_char n] else str_nat (n div 10) @ [digit_char (n mod 10)])"
  by pat_completeness auto
termination
  by (relation "measure id") auto

declare str_nat.simps [simp del]

definition str_int :: "int \<Rightarrow> string" where
  "str_int i = (if i < 0 then CHR ''-'' # str_nat (nat (- i)) else str_nat (nat i))"

fun contains :: "string \<Rightarrow> string \<Rightarrow> bool" where
  "contains sub [] = (sub = [])"
| "contains sub (c # cs) = (prefix sub (c # cs) \<or> contains sub cs)"


section \<open>Messages (common/message\_builder.py) and log lines (common/logger.py)\<close>

text \<open>
  The protobuf messages and the \<open>PendingRequest\<close> dataclass are records. Their fields
  carry the source's names behind a prefix that tells the records apart:
  \<open>pend_\<close> for \<open>PendingRequest\<close>, \<open>req_\<close> for \<open>AccessRequest\<close>, \<open>resp_\<close> for
  \<open>AccessResponse\<close>, \<open>rel_\<close> for \<open>AccessRelease\<close>, \<open>job_\<close> for \<open>PrintRequest\<close> and
  \<open>conf_\<close> for \<open>PrintResponse\<close>.
\<close>

record pending_request =
  pend_client_id :: int
  pend_lamport_timestamp :: int
  pend_request_number :: int

record access_request =
  req_client_id :: int
  req_lamport_timestamp :: int
  req_request_number :: int

record access_response =
  resp_access_granted :: bool
  resp_lamport_timestamp :: int

record access_release =
  rel_client_id :: int
  rel_lamport_timestamp :: int
  rel_request_number :: int

record print_request =
  job_client_id :: int
  job_message_content :: string
  job_lamport_timestamp :: int
  job_request_number :: int

record print_response =
  conf_success :: bool
  conf_confirmation_message :: string
  conf_lamport_timestamp :: int

definition build_access_request :: "int \<Rightarrow> int \<Rightarrow> int \<Rightarrow> access_request" where
  "build_access_request cid ts n =
     \<lparr>req_client_id = cid, req_lamport_timestamp = ts, req_request_number = n\<rparr>"

definition build_access_response :: "bool \<Rightarrow> int \<Rightarrow> access_response" where
  "build_access_response granted ts =
     \<lparr>resp_access_granted = granted, resp_lamport_timestamp = ts\<rparr>"

definition build_access_release :: "int \<Rightarrow> int \<Rightarrow> int \<Rightarrow> access_release" where
  "build_access_release cid ts n =
     \<lparr>rel_client_id = cid, rel_lamport_timestamp = ts, rel_request_number = n\<rparr>"

definition build_print_response :: "bool \<Rightarrow> string \<Rightarrow> int \<Rightarrow> print_response" where
  "build_print_response ok msg ts =
     \<lparr>conf_success = ok, conf_confirmation_message = msg, conf_lamport_timestamp = ts\<rparr>"

text \<open>
  \<open>Logger._format_message\<close>: the logger's \<open>client_id\<close> is \<open>None\<close> for the printer's
  logger; a missing Lamport timestamp falls back to the system time, which is the
  parameter \<open>now\<close> here. \<open>Logger.info\<close> prefixes the message with \<open>INFO: \<close>.
\<close>

definition format_message :: "int option \<Rightarrow> string \<Rightarrow> int option \<Rightarrow> int \<Rightarrow> string" where
  "format_message logger_client_id message lamport_timestamp now =
     (let timestamp = (case lamport_timestamp of Some t \<Rightarrow> t | None \<Rightarrow> now)
      in case logger_client_id of
           Some cid \<Rightarrow> ''[TS: '' @ str_int timestamp @ ''] CLIENTE '' @ str_int cid @ '': '' @ message
         | None \<Rightarrow> ''[TS: '' @ str_int timestamp @ ''] SERVIDOR: '' @ message)"

definition info :: "int option \<Rightarrow> string \<Rightarrow> int option \<Rightarrow> int \<Rightarrow> string" where
  "info logger_client_id message lamport_timestamp now =
     format_message logger_client_id (''INFO: '' @ message) lamport_timestamp now"

text \<open>
  The peer's log messages are Portuguese sentences whose wording carries no behaviour.
  A peer's log is kept as a list of entries: the level, which message of the source it
  is (with the values the f-string interpolates), and the Lamport timestamp passed to the
  logger.
\<close>

datatype log_level = INFO | WARNING | ERROR

datatype log_message =
    Deferred_in_cs int int
  | Granted_ts_lower int int int
  | Deferred_ts_higher int int int
  | Granted_id_lower int int
  | Deferred_id_not_lower int int
  | Granted_not_in_cs int
  | Requesting_access int int
  | Waiting_for_replies nat nat
  | Access_granted_all_replies
  | Reply_received string bool
  | Access_request_error string
  | Release_without_access
  | Releasing_access nat
  | Release_received int int
  | Peer_address_not_found int
  | Deferred_reply_sent int string
  | Deferred_reply_error int

type_synonym log_entry = "log_level \<times> log_message \<times> int"


section \<open>The peer node (client/main.py)\<close>

text \<open>
  \<open>ClientNode\<close> as a record of the fields the protocol reads and writes. The dictionary
  \<open>deferred_replies\<close> is an association list in insertion order (the order in which
  Python iterates it); \<open>peer_stubs\<close> is the list of its keys, the addresses
  \<open>initialize_grpc\<close> created a stub for; \<open>logged\<close> is what the node's logger printed.
\<close>

record client_node =
  client_id :: int
  peer_addresses :: "string list"
  clock :: lamport_clock
  request_number :: int
  request_queue :: "pending_request list"
  has_access :: bool
  waiting_for_access :: bool
  deferred_replies :: "(int \<times> access_request) list"
  received_replies :: "string set"
  outstanding_replies :: "string set"
  peer_stubs :: "string list"
  logged :: "log_entry list"

definition new_client_node :: "int \<Rightarrow> string list \<Rightarrow> client_node" where
  "new_client_node cid peers =
     \<lparr>client_id = cid, peer_addresses = peers, clock = new_clock, request_number = 0,
      request_queue = [], has_access = False, waiting_for_access = False,
      deferred_replies = [], received_replies = {}, outstanding_replies = {},
      peer_stubs = [], logged = []\<rparr>"

definition initialize_grpc :: "client_node \<Rightarrow> client_node" where
  "initialize_grpc s =
     s\<lparr>peer_stubs := foldl (\<lambda>stubs peer_addr.
                          if peer_addr \<in> set stubs then stubs else stubs @ [peer_addr])
                        (peer_stubs s) (peer_addresses s)\<rparr>"

definition log_to :: "log_level \<Rightarrow> log_message \<Rightarrow> int \<Rightarrow> client_node \<Rightarrow> client_node" where
  "log_to level message ts s = s\<lparr>logged := logged s @ [(level, message, ts)]\<rparr>"

text \<open>
  \<open>_evaluate_access_request\<close>: the first component of the result is \<open>should_defer\<close>.
  In the waiting branch the source re-sorts \<open>request_queue\<close> (a stable sort on the key
  \<open>(lamport_timestamp, client_id)\<close>) and reads its first element; the branch is entered
  only with a non-empty queue.
\<close>

definition evaluate_access_request ::
  "access_request \<Rightarrow> client_node \<Rightarrow> (bool \<times> log_message) \<times> client_node" where
  "evaluate_access_request request s =
     (if has_access s then
        ((True, Deferred_in_cs (req_client_id request) (req_lamport_timestamp request)), s)
      else if waiting_for_access s \<and> request_queue s \<noteq> [] then
        (let s' = s\<lparr>request_queue :=
                     sort_key (\<lambda>x. (pend_lamport_timestamp x, pend_client_id x)) (request_queue s)\<rparr>;
             our_request = hd (request_queue s');
             our_timestamp = pend_lamport_timestamp our_request
         in if req_lamport_timestamp request < our_timestamp then
              ((False, Granted_ts_lower (req_client_id request) (req_lamport_timestamp request)
                         our_timestamp), s')
            else if req_lamport_timestamp request > our_timestamp then
              ((True, Deferred_ts_higher (req_client_id request) (req_lamport_timestamp request)
                        our_timestamp), s')
            else if req_client_id request < client_id s then
              ((False, Granted_id_lower (req_client_id request) (client_id s)), s')
            else
              ((True, Deferred_id_not_lower (req_client_id request) (client_id s)), s'))
      else
        ((False, Granted_not_in_cs (req_client_id request)), s))"

text \<open>
  \<open>MutualExclusionServiceServicer.RequestAccess\<close>: the handler a peer runs for an
  incoming \<open>AccessRequest\<close>. It returns the synchronous reply and the node after the call.
\<close>

definition RequestAccess :: "access_request \<Rightarrow> client_node \<Rightarrow> access_response \<times> client_node" where
  "RequestAccess request s =
     (let (response_timestamp, c1) = receive_event (req_lamport_timestamp request) (clock s);
          s1 = s\<lparr>clock := c1\<rparr>;
          ((should_defer, log_message), s2) = evaluate_access_request request s1
      in if should_defer then
           (let s3 = (if map_of (deferred_replies s2) (req_client_id request) = None then
                        log_to INFO log_message response_timestamp
                          (s2\<lparr>deferred_replies :=
                                deferred_replies s2 @ [(req_client_id request, request)]\<rparr>)
                      else s2);
                (t, c2) = tick (clock s3)
            in (build_access_response False t, s3\<lparr>clock := c2\<rparr>))
         else
           (let s3 = log_to INFO log_message (fst (get_time (clock s2))) s2;
                (response_timestamp', c2) = tick (clock s3)
            in (build_access_response True response_timestamp', s3\<lparr>clock := c2\<rparr>)))"

text \<open>\<open>MutualExclusionServiceServicer.ReleaseAccess\<close>: a clock merge and a log line.\<close>

definition ReleaseAccess :: "access_release \<Rightarrow> client_node \<Rightarrow> client_node" where
  "ReleaseAccess request s =
     (let (timestamp, c1) = receive_event (rel_lamport_timestamp request) (clock s)
      in log_to INFO (Release_received (rel_client_id request) (rel_lamport_timestamp request))
           timestamp (s\<lparr>clock := c1\<rparr>))"

text \<open>
  \<open>request_print_access\<close> runs in three parts. The first block under the lock registers
  the request; it returns the pending record with the node.
\<close>

definition request_print_access_register :: "client_node \<Rightarrow> pending_request \<times> client_node" where
  "request_print_access_register s =
     (let s1 = s\<lparr>request_number := request_number s + 1\<rparr>;
          (timestamp, c1) = send_event (clock s1);
          s2 = log_to INFO (Requesting_access (request_number s1) timestamp) timestamp
                 (s1\<lparr>clock := c1\<rparr>);
          pending = \<lparr>pend_client_id = client_id s2, pend_lamport_timestamp = timestamp,
                     pend_request_number = request_number s2\<rparr>
      in (pending,
          s2\<lparr>request_queue := request_queue s2 @ [pending],
             waiting_for_access := True,
             received_replies := {},
             outstanding_replies := set (peer_addresses s2)\<rparr>))"

text \<open>
  \<open>_broadcast_access_request\<close> builds one \<open>AccessRequest\<close> and starts one sender thread
  per entry of \<open>peer_addresses\<close>; the result is the list of started threads, each with the
  address it calls and the request it carries.
\<close>

definition broadcast_access_request ::
  "pending_request \<Rightarrow> client_node \<Rightarrow> (string \<times> access_request) list" where
  "broadcast_access_request pending_request s =
     (let request = build_access_request (client_id s) (pend_lamport_timestamp pending_request)
                      (pend_request_number pending_request)
      in map (\<lambda>peer_addr. (peer_addr, request)) (peer_addresses s))"

text \<open>
  \<open>_send_access_request_to_peer\<close>, from the point where the remote call has ended: with
  a response, or with \<open>grpc.RpcError\<close>. Both branches record the peer as having replied.
  Without a stub for the address the lookup raises \<open>KeyError\<close>, which the handler does not
  catch: the thread ends and the node is unchanged.
\<close>

datatype rpc_result = Rpc_ok access_response | Rpc_error

definition send_access_request_to_peer :: "string \<Rightarrow> rpc_result \<Rightarrow> client_node \<Rightarrow> client_node" where
  "send_access_request_to_peer peer_addr result s =
     (if peer_addr \<notin> set (peer_stubs s) then s
      else case result of
        Rpc_ok response \<Rightarrow>
          (let (t, c1) = receive_event (resp_lamport_timestamp response) (clock s);
               s1 = s\<lparr>clock := c1\<rparr>;
               s2 = s1\<lparr>outstanding_replies := outstanding_replies s1 - {peer_addr},
                       received_replies := insert peer_addr (received_replies s1)\<rparr>
           in log_to INFO (Reply_received peer_addr (resp_access_granted response))
                (fst (get_time (clock s2))) s2)
      | Rpc_error \<Rightarrow>
          (let s1 = log_to ERROR (Access_request_error peer_addr) (fst (get_time (clock s))) s
           in s1\<lparr>outstanding_replies := outstanding_replies s1 - {peer_addr},
                 received_replies := insert peer_addr (received_replies s1)\<rparr>))"

text \<open>
  The wait loop of \<open>request_print_access\<close>. The sender threads end while the requester
  is between its checks of the loop condition: \<open>complete_threads\<close> applies a batch of
  thread endings (address, result of the call); an ending counts only for a thread that
  was started and has not ended yet. The schedule lists the batch that ends during each
  wait on the condition variable. When the schedule is used up while the condition still
  holds, the requester waits forever: the result is \<open>None\<close>. The number returned counts
  the waits.
\<close>

fun complete_threads ::
  "(string \<times> rpc_result) list \<Rightarrow> client_node \<times> string list \<Rightarrow> client_node \<times> string list" where
  "complete_threads [] st = st"
| "complete_threads ((peer_addr, result) # rest) (s, threads) =
     (if peer_addr \<in> set threads then
        complete_threads rest (send_access_request_to_peer peer_addr result s, remove1 peer_addr threads)
      else complete_threads rest (s, threads))"

fun wait_for_replies ::
  "(string \<times> rpc_result) list list \<Rightarrow> nat \<Rightarrow> client_node \<times> string list \<Rightarrow> (client_node \<times> nat) option" where
  "wait_for_replies [] waits (s, threads) =
     (if card (received_replies s) < length (peer_addresses s) then None else Some (s, waits))"
| "wait_for_replies (batch # schedule) waits (s, threads) =
     (if card (received_replies s) < length (peer_addresses s) then
        wait_for_replies schedule (Suc waits)
          (complete_threads batch
            (log_to INFO (Waiting_for_replies (card (received_replies s)) (length (peer_addresses s)))
               (fst (get_time (clock s))) s, threads))
      else Some (s, waits))"

definition request_print_access_grant :: "client_node \<Rightarrow> client_node" where
  "request_print_access_grant s =
     log_to INFO Access_granted_all_replies (fst (get_time (clock s)))
       (s\<lparr>has_access := True, waiting_for_access := False\<rparr>)"

text \<open>
  The whole of \<open>request_print_access\<close>: \<open>early\<close> are the threads that end before the
  requester first checks the loop condition.
\<close>

definition request_print_access ::
  "(string \<times> rpc_result) list \<Rightarrow> (string \<times> rpc_result) list list \<Rightarrow> client_node
     \<Rightarrow> (client_node \<times> nat) option" where
  "request_print_access early schedule s =
     (let (pending, s1) = request_print_access_register s;
          threads = map fst (broadcast_access_request pending s1)
      in case wait_for_replies schedule 0 (complete_threads early (s1, threads)) of
           None \<Rightarrow> None
         | Some (s2, waits) \<Rightarrow> Some (request_print_access_grant s2, waits))"


text \<open>
  \<open>release_access\<close>. The whole body runs under the lock. What the node sends is returned
  as a list of actions: one \<open>AccessRelease\<close> per entry of \<open>peer_addresses\<close>, then what the
  loop over \<open>self.deferred_replies.items()\<close> sends. That loop reads the dictionary after
  \<open>self.deferred_replies.clear()\<close>; the snapshot \<open>deferred_requests\<close> is sorted and not
  used again. \<open>rpc_ok\<close> tells whether the \<open>ReplyToAccessRequest\<close> call to an address
  succeeds or raises \<open>grpc.RpcError\<close>.
\<close>

datatype action =
    Send_access_release string access_release
  | Reply_to_access_request string access_response

fun find_peer_addr :: "int \<Rightarrow> string list \<Rightarrow> string option" where
  "find_peer_addr peer_id [] = None"
| "find_peer_addr peer_id (addr # addrs) =
     (if contains (''cliente '' @ str_int peer_id) addr then Some addr
      else find_peer_addr peer_id addrs)"

fun send_deferred_replies ::
  "(string \<Rightarrow> bool) \<Rightarrow> (int \<times> access_request) list \<Rightarrow> client_node \<times> action list
     \<Rightarrow> client_node \<times> action list" where
  "send_deferred_replies rpc_ok [] st = st"
| "send_deferred_replies rpc_ok ((peer_id, request) # items) (s, sent) =
     (case find_peer_addr peer_id (peer_stubs s) of
        None \<Rightarrow>
          send_deferred_replies rpc_ok items
            (log_to ERROR (Peer_address_not_found peer_id) (fst (get_time (clock s))) s, sent)
      | Some peer_addr \<Rightarrow>
          (let (t, c1) = tick (clock s);
               s1 = s\<lparr>clock := c1\<rparr>;
               response = build_access_response True t
           in if rpc_ok peer_addr then
                send_deferred_replies rpc_ok items
                  (log_to INFO (Deferred_reply_sent peer_id peer_addr) (fst (get_time (clock s1))) s1,
                   sent @ [Reply_to_access_request peer_addr response])
              else
                send_deferred_replies rpc_ok items
                  (log_to ERROR (Deferred_reply_error peer_id) (fst (get_time (clock s1))) s1, sent)))"

definition release_access :: "(string \<Rightarrow> bool) \<Rightarrow> client_node \<Rightarrow> client_node \<times> action list" where
  "release_access rpc_ok s =
     (if \<not> has_access s then
        (log_to WARNING Release_without_access (fst (get_time (clock s))) s, [])
      else
        (let (timestamp, c1) = send_event (clock s);
             s1 = log_to INFO (Releasing_access (length (deferred_replies s))) timestamp
                    (s\<lparr>clock := c1\<rparr>);
             deferred_requests = map snd (deferred_replies s1);
             s2 = s1\<lparr>deferred_replies := []\<rparr>;
             release_msg = build_access_release (client_id s2) timestamp (request_number s2);
             s3 = s2\<lparr>has_access := False\<rparr>;
             s4 = (if length (request_queue s3) > 0
                   then s3\<lparr>request_queue := tl (request_queue s3)\<rparr> else s3);
             releases = map (\<lambda>peer_addr. Send_access_release peer_addr release_msg)
                          (peer_addresses s4);
             deferred_requests' =
               sort_key (\<lambda>x. (req_lamport_timestamp x, req_client_id x)) deferred_requests;
             (s5, sent) = send_deferred_replies rpc_ok (deferred_replies s4) (s4, releases)
         in (s5\<lparr>outstanding_replies := {}\<rparr>, sent)))"


section \<open>A system of peers\<close>

text \<open>
  The peers of one system, keyed by address, together with the remote calls that are
  under way: the sender threads started by a broadcast and not yet run (caller, callee,
  request), the release threads likewise, and the threads that are inside
  \<open>request_print_access\<close> between its first and its last block, each listed by the
  address of its peer. An event is one atomic step of one thread; a trace is a list of
  events. An event that cannot happen in the state gives \<open>None\<close>: a message nobody
  sent, a requester whose loop condition still holds, or a sender thread that has no stub
  for the address and ends with \<open>KeyError\<close> before it calls.
\<close>

record system =
  nodes :: "string \<Rightarrow> client_node option"
  request_threads :: "(string \<times> string \<times> access_request) list"
  release_threads :: "(string \<times> string \<times> access_release) list"
  requesting :: "string list"

datatype event =
    Register string
  | Request_delivered string string
  | Request_failed string string
  | Enter string
  | Release string
  | Release_delivered string string

fun find_thread :: "string \<Rightarrow> string \<Rightarrow> (string \<times> string \<times> 'a) list \<Rightarrow> 'a option" where
  "find_thread a b [] = None"
| "find_thread a b ((a', b', m) # rest) =
     (if a = a' \<and> b = b' then Some m else find_thread a b rest)"

fun remove_thread :: "string \<Rightarrow> string \<Rightarrow> (string \<times> string \<times> 'a) list \<Rightarrow> (string \<times> string \<times> 'a) list" where
  "remove_thread a b [] = []"
| "remove_thread a b ((a', b', m) # rest) =
     (if a = a' \<and> b = b' then rest else (a', b', m) # remove_thread a b rest)"

fun step :: "event \<Rightarrow> system \<Rightarrow> system option" where
  "step (Register a) sys =
     (case nodes sys a of
        None \<Rightarrow> None
      | Some s \<Rightarrow>
          (let (pending, s1) = request_print_access_register s
           in Some (sys\<lparr>nodes := (nodes sys)(a \<mapsto> s1),
                        request_threads := request_threads sys
                          @ map (\<lambda>(b, request). (a, b, request)) (broadcast_access_request pending s1),
                        requesting := requesting sys @ [a]\<rparr>)))"
| "step (Request_delivered a b) sys =
     (case (nodes sys a, nodes sys b, find_thread a b (request_threads sys)) of
        (Some sa, Some sb, Some request) \<Rightarrow>
          (if a = b \<or> b \<notin> set (peer_stubs sa) then None
           else let (response, sb') = RequestAccess request sb;
                    sa' = send_access_request_to_peer b (Rpc_ok response) sa
                in Some (sys\<lparr>nodes := (nodes sys)(b \<mapsto> sb', a \<mapsto> sa'),
                             request_threads := remove_thread a b (request_threads sys)\<rparr>))
      | _ \<Rightarrow> None)"
| "step (Request_failed a b) sys =
     (case (nodes sys a, find_thread a b (request_threads sys)) of
        (Some sa, Some request) \<Rightarrow>
          (if b \<notin> set (peer_stubs sa) then None
           else Some (sys\<lparr>nodes := (nodes sys)(a \<mapsto> send_access_request_to_peer b Rpc_error sa),
                         request_threads := remove_thread a b (request_threads sys)\<rparr>))
      | _ \<Rightarrow> None)"
| "step (Enter a) sys =
     (case nodes sys a of
        None \<Rightarrow> None
      | Some s \<Rightarrow>
          (if a \<in> set (requesting sys)
              \<and> \<not> card (received_replies s) < length (peer_addresses s) then
             Some (sys\<lparr>nodes := (nodes sys)(a \<mapsto> request_print_access_grant s),
                       requesting := remove1 a (requesting sys)\<rparr>)
           else None))"
| "step (Release a) sys =
     (case nodes sys a of
        None \<Rightarrow> None
      | Some s \<Rightarrow>
          (let (s', sent) = release_access (\<lambda>_. True) s
           in Some (sys\<lparr>nodes := (nodes sys)(a \<mapsto> s'),
                        release_threads := release_threads sys
                          @ concat (map (\<lambda>act. case act of
                                 Send_access_release b m \<Rightarrow> [(a, b, m)]
                               | Reply_to_access_request b r \<Rightarrow> []) sent)\<rparr>)))"
| "step (Release_delivered a b) sys =
     (case (nodes sys b, find_thread a b (release_threads sys)) of
        (Some sb, Some m) \<Rightarrow>
          Some (sys\<lparr>nodes := (nodes sys)(b \<mapsto> ReleaseAccess m sb),
                    release_threads := remove_thread a b (release_threads sys)\<rparr>)
      | _ \<Rightarrow> None)"

fun run :: "event list \<Rightarrow> system \<Rightarrow> system option" where
  "run [] sys = Some sys"
| "run (e # es) sys = (case step e sys of None \<Rightarrow> None | Some sys' \<Rightarrow> run es sys')"

definition holds :: "system \<Rightarrow> string \<Rightarrow> bool" where
  "holds sys a = (case nodes sys a of None \<Rightarrow> False | Some s \<Rightarrow> has_access s)"

text \<open>
  An invariant of the system that ties the flags of a node to its queue: the queue holds
  at least one pending request for each thread of the node that is inside
  \<open>request_print_access\<close>, and one more while the node has access; a node that is
  flagged as waiting has such a thread.
\<close>

definition pending_ok :: "nat \<Rightarrow> client_node \<Rightarrow> bool" where
  "pending_ok k s =
     (k + (if has_access s then 1 else 0) \<le> length (request_queue s)
      \<and> (waiting_for_access s \<longrightarrow> 0 < k))"

definition pending_invariant :: "system \<Rightarrow> bool" where
  "pending_invariant sys =
     (\<forall>a s. nodes sys a = Some s \<longrightarrow> pending_ok (count_list (requesting sys) a) s)"

text \<open>
  A peer runs its jobs one at a time when it starts \<open>request_print_access\<close> only while
  it neither holds access nor waits for it. In such runs the queue of a peer is empty
  while the peer is idle and holds exactly the pending request otherwise.
\<close>

fun one_at_a_time :: "event \<Rightarrow> system \<Rightarrow> bool" where
  "one_at_a_time (Register a) sys =
     (case nodes sys a of
        None \<Rightarrow> True
      | Some s \<Rightarrow> \<not> has_access s \<and> \<not> waiting_for_access s)"
| "one_at_a_time e sys = True"

fun run_one_at_a_time :: "event list \<Rightarrow> system \<Rightarrow> system option" where
  "run_one_at_a_time [] sys = Some sys"
| "run_one_at_a_time (e # es) sys =
     (if one_at_a_time e sys then
        (case step e sys of None \<Rightarrow> None | Some sys' \<Rightarrow> run_one_at_a_time es sys')
      else None)"

definition single_ok :: "nat \<Rightarrow> client_node \<Rightarrow> bool" where
  "single_ok k s =
     (if has_access s then \<not> waiting_for_access s \<and> k = 0 \<and> length (request_queue s) = 1
      else if waiting_for_access s then k = 1 \<and> length (request_queue s) = 1
      else k = 0 \<and> request_queue s = [])"

definition single_invariant :: "system \<Rightarrow> bool" where
  "single_invariant sys =
     (\<forall>a s. nodes sys a = Some s \<longrightarrow> single_ok (count_list (requesting sys) a) s)"

text \<open>Two peers that know each other, as the integration test sets them up.\<close>

definition peer1 :: string where "peer1 = ''localhost:50062''"
definition peer2 :: string where "peer2 = ''localhost:50063''"

definition two_peers :: system where
  "two_peers =
     \<lparr>nodes = [peer1 \<mapsto> initialize_grpc (new_client_node 1 [peer2]),
               peer2 \<mapsto> initialize_grpc (new_client_node 2 [peer1])],
      request_threads = [], release_threads = [], requesting = []\<rparr>"


section \<open>The peer states and the decision table of the specification\<close>

text \<open>
  The specification's three peer states, read off the two flags of the node: \<open>HELD\<close> is
  \<open>has_access\<close>; \<open>WAITING\<close> is \<open>waiting_for_access\<close> without \<open>has_access\<close>. The
  node's own pending request is the record that \<open>request_print_access\<close> appended to
  \<open>request_queue\<close> for the attempt under way, and \<open>T_own\<close> is its timestamp. The
  source does not keep that record apart: \<open>_evaluate_access_request\<close> compares with the
  first entry of the sorted queue, which is the pending request when the queue holds
  nothing else.
\<close>

datatype peer_state = IDLE | WAITING | HELD

definition state_of :: "client_node \<Rightarrow> peer_state" where
  "state_of s = (if has_access s then HELD else if waiting_for_access s then WAITING else IDLE)"

text \<open>
  The rule table, row by row as the specification writes it: local state, the node's own
  pending timestamp \<open>T_own\<close>, its identifier, and the incoming request.
\<close>

datatype decision = Grant | Defer

fun rule_table :: "peer_state \<Rightarrow> int \<Rightarrow> int \<Rightarrow> access_request \<Rightarrow> decision" where
  "rule_table HELD T_own own_id r = Defer"
| "rule_table IDLE T_own own_id r = Grant"
| "rule_table WAITING T_own own_id r =
     (if req_lamport_timestamp r < T_own then Grant
      else if req_lamport_timestamp r > T_own then Defer
      else if req_client_id r < own_id then Grant
      else Defer)"


section \<open>The printer service (printer/server.py)\<close>

text \<open>
  \<open>PrintingServiceServicer\<close> with its two delays (Python floats, modelled as reals) and
  its clock. \<open>random.uniform(a, b)\<close> computes \<open>a + (b - a) * random()\<close> with
  \<open>random()\<close> in \<open>[0, 1)\<close>; the draw is the parameter \<open>u\<close>. What the handler does to
  the outside is a list of effects in program order.
\<close>

record printing_service =
  print_delay_min :: real
  print_delay_max :: real
  printer_clock :: lamport_clock

definition new_printing_service :: "real \<Rightarrow> real \<Rightarrow> printing_service" where
  "new_printing_service delay_min delay_max =
     \<lparr>print_delay_min = delay_min, print_delay_max = delay_max, printer_clock = new_clock\<rparr>"

datatype printer_effect = Print string | Sleep real

definition uniform :: "real \<Rightarrow> real \<Rightarrow> real \<Rightarrow> real" where
  "uniform a b u = a + (b - a) * u"

definition job_line :: "print_request \<Rightarrow> string" where
  "job_line request =
     ''[TS: '' @ str_int (job_lamport_timestamp request) @ ''] CLIENTE ''
       @ str_int (job_client_id request) @ '': '' @ job_message_content request"

definition confirmation_sent :: "int \<Rightarrow> string" where
  "confirmation_sent cid =
     ''Confirma'' @ [CHR 0xE7, CHR 0xE3] @ ''o enviada para cliente '' @ str_int cid"

text \<open>
  \<open>SendToPrinter\<close> up to the end of the sleep, and from there to the response; other
  calls of the handler may run between the two.
\<close>

definition SendToPrinter_receive ::
  "print_request \<Rightarrow> real \<Rightarrow> printing_service \<Rightarrow> printer_effect list \<times> printing_service" where
  "SendToPrinter_receive request u svc =
     (let (server_timestamp, c1) = receive_event (job_lamport_timestamp request) (printer_clock svc);
          delay = uniform (print_delay_min svc) (print_delay_max svc) u
      in ([Print (job_line request), Sleep delay], svc\<lparr>printer_clock := c1\<rparr>))"

definition SendToPrinter_respond ::
  "print_request \<Rightarrow> int \<Rightarrow> printing_service
     \<Rightarrow> print_response \<times> printer_effect list \<times> printing_service" where
  "SendToPrinter_respond request now svc =
     (let (response_timestamp, c2) = tick (printer_clock svc);
          response = build_print_response True
                       (''Documento do cliente '' @ str_int (job_client_id request)
                          @ '' impresso com sucesso'')
                       response_timestamp
      in (response,
          [Print (info None (confirmation_sent (job_client_id request)) (Some response_timestamp) now)],
          svc\<lparr>printer_clock := c2\<rparr>))"

definition SendToPrinter ::
  "print_request \<Rightarrow> real \<Rightarrow> int \<Rightarrow> printing_service
     \<Rightarrow> print_response \<times> printer_effect list \<times> printing_service" where
  "SendToPrinter request u now svc =
     (let (effects1, svc1) = SendToPrinter_receive request u svc;
          (response, effects2, svc2) = SendToPrinter_respond request now svc1
      in (response, effects1 @ effects2, svc2))"

fun printed :: "printer_effect list \<Rightarrow> string list" where
  "printed [] = []"
| "printed (Print line # effects) = line # printed effects"
| "printed (Sleep d # effects) = printed effects"

fun slept :: "printer_effect list \<Rightarrow> real list" where
  "slept [] = []"
| "slept (Print line # effects) = slept effects"
| "slept (Sleep d # effects) = d # slept effects"

text \<open>A line that carries a given timestamp and client identifier in the peers' format.\<close>

definition client_line :: "int \<Rightarrow> int \<Rightarrow> string \<Rightarrow> bool" where
  "client_line ts cid line =
     prefix (''[TS: '' @ str_int ts @ ''] CLIENTE '' @ str_int cid @ '': '') line"


section \<open>The command lines (main of client/main.py and of printer/server.py)\<close>

text \<open>
  \<open>main\<close> after \<open>parser.parse_args()\<close>: the parsed arguments are a record, the float
  arguments reals. Each \<open>main\<close> either prints an error line and returns, or goes on to
  start the node (\<open>ClientNode.start\<close>) or the printer (\<open>serve\<close>), which open the port
  and return when the server is shut down. No branch calls \<open>sys.exit\<close> or lets an
  exception out, and the script's last statement is the call \<open>main()\<close>: the exit status
  of the process, the second component of the result, is 0 in every branch.
\<close>

record client_args =
  arg_id :: int
  arg_port :: int
  arg_server :: string
  arg_clients :: "string list"
  arg_job_interval_min :: real
  arg_job_interval_max :: real

record printer_args =
  arg_printer_port :: int
  arg_delay_min :: real
  arg_delay_max :: real

datatype cli_effect =
    Print_line string
  | Start_client int int string "string list" real real
  | Serve int real real

fun opens_port :: "cli_effect \<Rightarrow> bool" where
  "opens_port (Print_line line) = False"
| "opens_port (Start_client cid port server peers lo hi) = True"
| "opens_port (Serve port lo hi) = True"

definition client_main :: "client_args \<Rightarrow> cli_effect list \<times> int" where
  "client_main args =
     (if arg_job_interval_min args < 0 \<or> arg_job_interval_max args < 0 then
        ([Print_line ''Erro: Intervalos de job devem ser valores positivos''], 0)
      else if arg_job_interval_min args > arg_job_interval_max args then
        ([Print_line ''Erro: job-interval-min deve ser menor ou igual a job-interval-max''], 0)
      else
        ([Start_client (arg_id args) (arg_port args) (arg_server args) (arg_clients args)
            (arg_job_interval_min args) (arg_job_interval_max args)], 0))"

definition printer_main :: "printer_args \<Rightarrow> cli_effect list \<times> int" where
  "printer_main args =
     (if arg_delay_min args < 0 \<or> arg_delay_max args < 0 then
        ([Print_line ''Erro: Delays devem ser valores positivos''], 0)
      else if arg_delay_min args > arg_delay_max args then
        ([Print_line ''Erro: delay-min deve ser menor ou igual a delay-max''], 0)
      else
        ([Serve (arg_printer_port args) (arg_delay_min args) (arg_delay_max args)], 0))"

definition client_args_valid :: "client_args \<Rightarrow> bool" where
  "client_args_valid args =
     (0 \<le> arg_job_interval_min args \<and> 0 \<le> arg_job_interval_max args
      \<and> arg_job_interval_min args \<le> arg_job_interval_max args)"

definition printer_args_valid :: "printer_args \<Rightarrow> bool" where
  "printer_args_valid args =
     (0 \<le> arg_delay_min args \<and> 0 \<le> arg_delay_max args \<and> arg_delay_min args \<le> arg_delay_max args)"


section \<open>Concrete states and inputs\<close>

text \<open>
  Peer 1 of the two-peer system at three moments: waiting after it registered its first
  request; holding access after peer 2 answered; and still holding access after it
  deferred a request of peer 2 with timestamp 5.
\<close>

definition node1_waiting :: client_node where
  "node1_waiting = snd (request_print_access_register (initialize_grpc (new_client_node 1 [peer2])))"

definition node1_held :: client_node where
  "node1_held =
     request_print_access_grant
       (send_access_request_to_peer peer2 (Rpc_ok (build_access_response True 3)) node1_waiting)"

definition node1_deferring :: client_node where
  "node1_deferring = snd (RequestAccess (build_access_request 2 5 1) node1_held)"

text \<open>
  Peer 1 after two of its job threads overlapped: both registered (timestamps 1 and 2),
  both were answered and entered, the first released (which removed the entry with
  timestamp 1) and the second release found \<open>has_access\<close> false and returned, leaving
  the entry with timestamp 2 in the queue. \<open>node1_stale\<close> is the peer after a third job
  has registered on top of that.
\<close>

definition node1_overlapped :: client_node where
  "node1_overlapped =
     fst (release_access (\<lambda>peer_addr. True)
       (fst (release_access (\<lambda>peer_addr. True)
         (request_print_access_grant
           (request_print_access_grant
             (send_access_request_to_peer peer2 (Rpc_ok (build_access_response True 5))
               (send_access_request_to_peer peer2 (Rpc_ok (build_access_response True 3))
                 (snd (request_print_access_register node1_waiting)))))))))"

definition node1_stale :: client_node where
  "node1_stale = snd (request_print_access_register node1_overlapped)"

text \<open>A print job of client 1.\<close>

definition job1 :: print_request where
  "job1 = \<lparr>job_client_id = 1, job_message_content = ''Documento #1 do cliente 1'',
           job_lamport_timestamp = 5, job_request_number = 1\<rparr>"


section \<open>Properties of the clock\<close>

lemma apply_op_returns_time: "fst (apply_op op c) = time (snd (apply_op op c))"
  by (cases op) (simp_all add: tick_def send_event_def receive_event_def get_time_def update_def)

lemma advances_increases: "advances op \<Longrightarrow> time c < time (snd (apply_op op c))"
  by (cases op) (simp_all add: tick_def send_event_def receive_event_def)

lemma no_update_nondecreasing: "\<not> is_update op \<Longrightarrow> time c \<le> time (snd (apply_op op c))"
  by (cases op) (simp_all add: tick_def send_event_def receive_event_def get_time_def)

lemma run_ops_advancing_above:
  "\<forall>op \<in> set ops. advances op \<Longrightarrow> \<forall>t \<in> set (run_ops ops c). time c < t"
proof (induction ops arbitrary: c)
  case Nil
  then show ?case by simp
next
  case (Cons op ops)
  obtain t c' where step: "apply_op op c = (t, c')" by (cases "apply_op op c")
  from Cons.prems have adv: "advances op" by simp
  have t: "t = time c'" using apply_op_returns_time [of op c] step by simp
  have lt: "time c < time c'" using advances_increases [OF adv, of c] step by simp
  from Cons.prems have "\<forall>op \<in> set ops. advances op" by simp
  then have "\<forall>u \<in> set (run_ops ops c'). time c' < u" by (rule Cons.IH)
  with lt t step show ?case by auto
qed

lemma run_ops_advancing_strict:
  "\<forall>op \<in> set ops. advances op \<Longrightarrow> sorted_wrt (<) (run_ops ops c)"
proof (induction ops arbitrary: c)
  case Nil
  then show ?case by simp
next
  case (Cons op ops)
  obtain t c' where step: "apply_op op c = (t, c')" by (cases "apply_op op c")
  have t: "t = time c'" using apply_op_returns_time [of op c] step by simp
  from Cons.prems have rest: "\<forall>op \<in> set ops. advances op" by simp
  have above: "\<forall>u \<in> set (run_ops ops c'). time c' < u"
    using rest by (rule run_ops_advancing_above)
  have "sorted_wrt (<) (run_ops ops c')" using rest by (rule Cons.IH)
  with above t step show ?case by simp
qed

lemma run_ops_no_update_above:
  "\<forall>op \<in> set ops. \<not> is_update op \<Longrightarrow> \<forall>t \<in> set (run_ops ops c). time c \<le> t"
proof (induction ops arbitrary: c)
  case Nil
  then show ?case by simp
next
  case (Cons op ops)
  obtain t c' where step: "apply_op op c = (t, c')" by (cases "apply_op op c")
  from Cons.prems have nu: "\<not> is_update op" by simp
  have t: "t = time c'" using apply_op_returns_time [of op c] step by simp
  have le: "time c \<le> time c'" using no_update_nondecreasing [OF nu, of c] step by simp
  from Cons.prems have "\<forall>op \<in> set ops. \<not> is_update op" by simp
  then have "\<forall>u \<in> set (run_ops ops c'). time c' \<le> u" by (rule Cons.IH)
  with le t step show ?case by auto
qed

lemma run_ops_no_update_sorted:
  "\<forall>op \<in> set ops. \<not> is_update op \<Longrightarrow> sorted_wrt (\<le>) (run_ops ops c)"
proof (induction ops arbitrary: c)
  case Nil
  then show ?case by simp
next
  case (Cons op ops)
  obtain t c' where step: "apply_op op c = (t, c')" by (cases "apply_op op c")
  have t: "t = time c'" using apply_op_returns_time [of op c] step by simp
  from Cons.prems have rest: "\<forall>op \<in> set ops. \<not> is_update op" by simp
  have above: "\<forall>u \<in> set (run_ops ops c'). time c' \<le> u"
    using rest by (rule run_ops_no_update_above)
  have "sorted_wrt (\<le>) (run_ops ops c')" using rest by (rule Cons.IH)
  with above t step show ?case by simp
qed

text \<open>
  C4. \<open>receive_event(t_in)\<close> on a clock at local value \<open>L\<close> sets the clock to
  \<open>max(L, t_in) + 1\<close> and returns that value, which is strictly greater than both \<open>L\<close>
  and \<open>t_in\<close>. A clock at 3 that receives 20 ends at 21 or more, and its next local
  event returns 22 or more.
\<close>

theorem receive_event_merges:
  "fst (receive_event t_in c) = max (time c) t_in + 1
   \<and> time (snd (receive_event t_in c)) = max (time c) t_in + 1
   \<and> time c < fst (receive_event t_in c)
   \<and> t_in < fst (receive_event t_in c)
   \<and> 21 \<le> time (snd (receive_event 20 \<lparr>time = 3\<rparr>))
   \<and> 22 \<le> fst (tick (snd (receive_event 20 \<lparr>time = 3\<rparr>)))"
  by (simp add: receive_event_def tick_def)

text \<open>
  C5, as stated, fails: \<open>get_time\<close> returns the current value without advancing, so two
  successive calls return the same timestamp, and \<open>update\<close> sets the clock to its
  argument, so it can return less than the call before it.
\<close>

theorem clock_monotonicity_counterexample:
  "\<not> sorted_wrt (<) (run_ops [Get_time, Get_time] \<lparr>time = 5\<rparr>)
   \<and> \<not> sorted_wrt (<) (run_ops [Tick, Update 0] \<lparr>time = 5\<rparr>)"
  by (simp add: get_time_def tick_def update_def)

text \<open>
  C5, amended. For every sequence of operations drawn from \<open>tick\<close>, \<open>send_event\<close> and
  \<open>receive_event\<close>, the returned timestamps are strictly increasing and all greater than
  the clock's value before the first call. When \<open>get_time\<close> is allowed as well, the
  returned timestamps are non-decreasing. Nothing is promised for \<open>update\<close>.
\<close>

theorem clock_monotonicity_amended:
  "((\<forall>op \<in> set ops. advances op) \<longrightarrow>
      sorted_wrt (<) (run_ops ops c) \<and> (\<forall>t \<in> set (run_ops ops c). time c < t))
   \<and> ((\<forall>op \<in> set ops. \<not> is_update op) \<longrightarrow> sorted_wrt (\<le>) (run_ops ops c))"
  using run_ops_advancing_strict run_ops_advancing_above run_ops_no_update_sorted
  by blast

theorem clock_monotonicity_amended_witness:
  "list_all advances [Tick, Send_event, Receive_event 5, Tick, Receive_event 20]
   \<and> list_all (\<lambda>op. \<not> is_update op) [Tick, Send_event, Receive_event 5, Tick, Receive_event 20]
   \<and> run_ops [Tick, Send_event, Receive_event 5, Tick, Receive_event 20] new_clock
       = [1, 2, 6, 7, 21]
   \<and> sorted_wrt (<) (run_ops [Tick, Send_event, Receive_event 5, Tick, Receive_event 20] new_clock)
   \<and> sorted_wrt (\<le>) (run_ops [Tick, Send_event, Receive_event 5, Tick, Receive_event 20] new_clock)"
  using clock_monotonicity_amended
    [of "[Tick, Send_event, Receive_event 5, Tick, Receive_event 20]" new_clock]
  by (simp add: new_clock_def tick_def send_event_def receive_event_def)

section \<open>A waiting peer has a pending request\<close>

text \<open>
  Every step of the system keeps \<open>pending_invariant\<close>, so in every state the two-peer
  system reaches, a node with \<open>waiting_for_access\<close> set has a non-empty queue: the
  waiting branch of \<open>_evaluate_access_request\<close> is the one taken for a waiting peer.
\<close>

lemma pending_ok_register:
  "pending_ok k s \<Longrightarrow> pending_ok (Suc k) (snd (request_print_access_register s))"
  by (simp add: pending_ok_def request_print_access_register_def send_event_def tick_def
        log_to_def Let_def)

lemma evaluate_access_request_flags:
  "has_access (snd (evaluate_access_request r s)) = has_access s
   \<and> waiting_for_access (snd (evaluate_access_request r s)) = waiting_for_access s
   \<and> length (request_queue (snd (evaluate_access_request r s))) = length (request_queue s)"
  by (simp add: evaluate_access_request_def Let_def)

lemma RequestAccess_flags:
  "has_access (snd (RequestAccess r s)) = has_access s
   \<and> waiting_for_access (snd (RequestAccess r s)) = waiting_for_access s
   \<and> length (request_queue (snd (RequestAccess r s))) = length (request_queue s)"
  by (simp add: RequestAccess_def split_beta Let_def log_to_def evaluate_access_request_flags)

lemma pending_ok_RequestAccess:
  "pending_ok k s \<Longrightarrow> pending_ok k (snd (RequestAccess r s))"
  by (simp add: pending_ok_def RequestAccess_flags)

lemma pending_ok_send:
  "pending_ok k s \<Longrightarrow> pending_ok k (send_access_request_to_peer b result s)"
  by (cases result)
     (simp_all add: pending_ok_def send_access_request_to_peer_def receive_event_def
        get_time_def log_to_def Let_def)

lemma pending_ok_grant:
  "pending_ok (Suc k) s \<Longrightarrow> pending_ok k (request_print_access_grant s)"
  by (simp add: pending_ok_def request_print_access_grant_def log_to_def)

lemma pending_ok_release:
  "pending_ok k s \<Longrightarrow> pending_ok k (fst (release_access rpc_ok s))"
  by (auto simp: pending_ok_def release_access_def send_event_def tick_def get_time_def
        log_to_def Let_def)

lemma pending_ok_ReleaseAccess:
  "pending_ok k s \<Longrightarrow> pending_ok k (ReleaseAccess m s)"
  by (simp add: pending_ok_def ReleaseAccess_def receive_event_def log_to_def Let_def)

lemma count_list_remove1_in:
  "a \<in> set xs \<Longrightarrow> count_list xs a = Suc (count_list (remove1 a xs) a)"
  by (induction xs) auto

lemma count_list_remove1_other:
  "a \<noteq> b \<Longrightarrow> count_list (remove1 b xs) a = count_list xs a"
  by (induction xs) auto

lemma step_keeps_pending_invariant:
  assumes inv: "pending_invariant sys" and st: "step e sys = Some sys'"
  shows "pending_invariant sys'"
proof (cases e)
  case (Register a)
  then obtain s where s: "nodes sys a = Some s"
    and sys': "sys' = sys\<lparr>nodes := (nodes sys)(a \<mapsto> snd (request_print_access_register s)),
                        request_threads := request_threads sys
                          @ map (\<lambda>(b, request). (a, b, request))
                              (broadcast_access_request (fst (request_print_access_register s))
                                 (snd (request_print_access_register s))),
                        requesting := requesting sys @ [a]\<rparr>"
    using st by (auto simp: split_beta Let_def split: option.splits)
  have "pending_ok (count_list (requesting sys) a) s"
    using inv s by (simp add: pending_invariant_def)
  then have "pending_ok (Suc (count_list (requesting sys) a)) (snd (request_print_access_register s))"
    by (rule pending_ok_register)
  then show ?thesis
    using inv unfolding pending_invariant_def sys' by auto
next
  case (Request_delivered a b)
  then obtain sa sb request where sa: "nodes sys a = Some sa" and sb: "nodes sys b = Some sb"
    and ab: "a \<noteq> b"
    and sys': "sys' = sys\<lparr>nodes := (nodes sys)
                 (b \<mapsto> snd (RequestAccess request sb),
                  a \<mapsto> send_access_request_to_peer b (Rpc_ok (fst (RequestAccess request sb))) sa),
               request_threads := remove_thread a b (request_threads sys)\<rparr>"
    using st by (auto simp: split_beta Let_def split: option.splits if_splits)
  have "pending_ok (count_list (requesting sys) a) sa" and "pending_ok (count_list (requesting sys) b) sb"
    using inv sa sb by (simp_all add: pending_invariant_def)
  then have "pending_ok (count_list (requesting sys) a)
               (send_access_request_to_peer b (Rpc_ok (fst (RequestAccess request sb))) sa)"
    and "pending_ok (count_list (requesting sys) b) (snd (RequestAccess request sb))"
    by (simp_all add: pending_ok_send pending_ok_RequestAccess)
  then show ?thesis
    using inv ab unfolding pending_invariant_def sys' by auto
next
  case (Request_failed a b)
  then obtain sa where sa: "nodes sys a = Some sa"
    and sys': "sys' = sys\<lparr>nodes := (nodes sys)(a \<mapsto> send_access_request_to_peer b Rpc_error sa),
               request_threads := remove_thread a b (request_threads sys)\<rparr>"
    using st by (auto simp: split_beta Let_def split: option.splits if_splits)
  have "pending_ok (count_list (requesting sys) a) sa"
    using inv sa by (simp add: pending_invariant_def)
  then have "pending_ok (count_list (requesting sys) a) (send_access_request_to_peer b Rpc_error sa)"
    by (rule pending_ok_send)
  then show ?thesis
    using inv unfolding pending_invariant_def sys' by auto
next
  case (Enter a)
  then obtain s where s: "nodes sys a = Some s" and mem: "a \<in> set (requesting sys)"
    and sys': "sys' = sys\<lparr>nodes := (nodes sys)(a \<mapsto> request_print_access_grant s),
                       requesting := remove1 a (requesting sys)\<rparr>"
    using st by (auto simp: split_beta Let_def split: option.splits if_splits)
  have count: "count_list (requesting sys) a = Suc (count_list (remove1 a (requesting sys)) a)"
    using mem by (rule count_list_remove1_in)
  have before: "pending_ok (count_list (requesting sys) a) s"
    using inv s by (simp add: pending_invariant_def)
  have "pending_ok (Suc (count_list (remove1 a (requesting sys)) a)) s"
    by (subst count [symmetric]) (rule before)
  then have "pending_ok (count_list (remove1 a (requesting sys)) a) (request_print_access_grant s)"
    by (rule pending_ok_grant)
  then show ?thesis
    using inv unfolding pending_invariant_def sys' by (auto simp: count_list_remove1_other)
next
  case (Release a)
  then obtain s where s: "nodes sys a = Some s"
    and sys': "nodes sys' = (nodes sys)(a \<mapsto> fst (release_access (\<lambda>_. True) s))"
              "requesting sys' = requesting sys"
    using st by (auto simp: split_beta Let_def split: option.splits if_splits)
  have "pending_ok (count_list (requesting sys) a) s"
    using inv s by (simp add: pending_invariant_def)
  then have "pending_ok (count_list (requesting sys) a) (fst (release_access (\<lambda>_. True) s))"
    by (rule pending_ok_release)
  then show ?thesis
    using inv unfolding pending_invariant_def sys' by auto
next
  case (Release_delivered a b)
  then obtain sb m where sb: "nodes sys b = Some sb"
    and sys': "sys' = sys\<lparr>nodes := (nodes sys)(b \<mapsto> ReleaseAccess m sb),
                    release_threads := remove_thread a b (release_threads sys)\<rparr>"
    using st by (auto simp: split_beta Let_def split: option.splits if_splits)
  have "pending_ok (count_list (requesting sys) b) sb"
    using inv sb by (simp add: pending_invariant_def)
  then have "pending_ok (count_list (requesting sys) b) (ReleaseAccess m sb)"
    by (rule pending_ok_ReleaseAccess)
  then show ?thesis
    using inv unfolding pending_invariant_def sys' by auto
qed

lemma run_keeps_pending_invariant:
  "pending_invariant sys \<Longrightarrow> run es sys = Some sys' \<Longrightarrow> pending_invariant sys'"
proof (induction es arbitrary: sys)
  case Nil
  then show ?case by simp
next
  case (Cons e es)
  from Cons.prems(2) obtain mid where mid: "step e sys = Some mid" and rest: "run es mid = Some sys'"
    by (auto split: option.splits)
  from Cons.prems(1) mid have "pending_invariant mid" by (rule step_keeps_pending_invariant)
  then show ?case using rest by (rule Cons.IH)
qed

lemma two_peers_pending_invariant: "pending_invariant two_peers"
  by (simp add: pending_invariant_def pending_ok_def two_peers_def new_client_node_def
        initialize_grpc_def)

lemma reachable_waiting_has_pending:
  assumes "run es two_peers = Some sys" and "nodes sys a = Some s"
  shows "waiting_for_access s \<longrightarrow> request_queue s \<noteq> []"
proof -
  have "pending_invariant sys"
    using two_peers_pending_invariant assms(1) by (rule run_keeps_pending_invariant)
  then have "pending_ok (count_list (requesting sys) a) s"
    using assms(2) by (simp add: pending_invariant_def)
  then show ?thesis by (auto simp: pending_ok_def)
qed


section \<open>Jobs one at a time keep the queue to the pending request\<close>

text \<open>
  In a run in which no peer starts a request while it holds access or waits for it, every
  step keeps \<open>single_invariant\<close>: a peer that is flagged as waiting has a queue of
  exactly one entry, the request it registered.
\<close>

lemma single_ok_register:
  "single_ok k s \<Longrightarrow> \<not> has_access s \<Longrightarrow> \<not> waiting_for_access s
     \<Longrightarrow> single_ok (Suc k) (snd (request_print_access_register s))
         \<and> request_queue (snd (request_print_access_register s))
             = [fst (request_print_access_register s)]"
  by (simp add: single_ok_def request_print_access_register_def send_event_def tick_def
        log_to_def Let_def)

lemma single_ok_RequestAccess:
  "single_ok k s \<Longrightarrow> single_ok k (snd (RequestAccess r s))"
  using RequestAccess_flags [of r s] by (auto simp: single_ok_def split: if_splits)

lemma send_access_request_to_peer_flags:
  "has_access (send_access_request_to_peer b result s) = has_access s
   \<and> waiting_for_access (send_access_request_to_peer b result s) = waiting_for_access s
   \<and> request_queue (send_access_request_to_peer b result s) = request_queue s"
  by (cases result)
     (simp_all add: send_access_request_to_peer_def receive_event_def
        get_time_def log_to_def Let_def)

lemma single_ok_send:
  "single_ok k s \<Longrightarrow> single_ok k (send_access_request_to_peer b result s)"
  by (simp add: single_ok_def send_access_request_to_peer_flags)

lemma single_ok_grant:
  "single_ok (Suc k) s \<Longrightarrow> single_ok k (request_print_access_grant s)"
  by (auto simp: single_ok_def request_print_access_grant_def log_to_def split: if_splits)

lemma single_ok_release:
  "single_ok k s \<Longrightarrow> single_ok k (fst (release_access rpc_ok s))"
  by (auto simp: single_ok_def release_access_def send_event_def tick_def get_time_def
        log_to_def Let_def length_Suc_conv split: if_splits)

lemma ReleaseAccess_flags:
  "has_access (ReleaseAccess m s) = has_access s
   \<and> waiting_for_access (ReleaseAccess m s) = waiting_for_access s
   \<and> request_queue (ReleaseAccess m s) = request_queue s"
  by (simp add: ReleaseAccess_def receive_event_def log_to_def Let_def)

lemma single_ok_ReleaseAccess:
  "single_ok k s \<Longrightarrow> single_ok k (ReleaseAccess m s)"
  by (simp add: single_ok_def ReleaseAccess_flags)

lemma step_keeps_single_invariant:
  assumes inv: "single_invariant sys" and ok: "one_at_a_time e sys" and st: "step e sys = Some sys'"
  shows "single_invariant sys'"
proof (cases e)
  case (Register a)
  then obtain s where s: "nodes sys a = Some s"
    and sys': "sys' = sys\<lparr>nodes := (nodes sys)(a \<mapsto> snd (request_print_access_register s)),
                        request_threads := request_threads sys
                          @ map (\<lambda>(b, request). (a, b, request))
                              (broadcast_access_request (fst (request_print_access_register s))
                                 (snd (request_print_access_register s))),
                        requesting := requesting sys @ [a]\<rparr>"
    using st by (auto simp: split_beta Let_def split: option.splits)
  have idle: "\<not> has_access s" "\<not> waiting_for_access s"
    using ok Register s by simp_all
  have "single_ok (count_list (requesting sys) a) s"
    using inv s by (simp add: single_invariant_def)
  then have "single_ok (Suc (count_list (requesting sys) a)) (snd (request_print_access_register s))"
    using idle by (simp add: single_ok_register)
  then show ?thesis
    using inv unfolding single_invariant_def sys' by auto
next
  case (Request_delivered a b)
  then obtain sa sb request where sa: "nodes sys a = Some sa" and sb: "nodes sys b = Some sb"
    and ab: "a \<noteq> b"
    and sys': "sys' = sys\<lparr>nodes := (nodes sys)
                 (b \<mapsto> snd (RequestAccess request sb),
                  a \<mapsto> send_access_request_to_peer b (Rpc_ok (fst (RequestAccess request sb))) sa),
               request_threads := remove_thread a b (request_threads sys)\<rparr>"
    using st by (auto simp: split_beta Let_def split: option.splits if_splits)
  have "single_ok (count_list (requesting sys) a) sa" and "single_ok (count_list (requesting sys) b) sb"
    using inv sa sb by (simp_all add: single_invariant_def)
  then have "single_ok (count_list (requesting sys) a)
               (send_access_request_to_peer b (Rpc_ok (fst (RequestAccess request sb))) sa)"
    and "single_ok (count_list (requesting sys) b) (snd (RequestAccess request sb))"
    by (simp_all add: single_ok_send single_ok_RequestAccess)
  then show ?thesis
    using inv ab unfolding single_invariant_def sys' by auto
next
  case (Request_failed a b)
  then obtain sa where sa: "nodes sys a = Some sa"
    and sys': "sys' = sys\<lparr>nodes := (nodes sys)(a \<mapsto> send_access_request_to_peer b Rpc_error sa),
               request_threads := remove_thread a b (request_threads sys)\<rparr>"
    using st by (auto simp: split_beta Let_def split: option.splits if_splits)
  have "single_ok (count_list (requesting sys) a) sa"
    using inv sa by (simp add: single_invariant_def)
  then have "single_ok (count_list (requesting sys) a) (send_access_request_to_peer b Rpc_error sa)"
    by (rule single_ok_send)
  then show ?thesis
    using inv unfolding single_invariant_def sys' by auto
next
  case (Enter a)
  then obtain s where s: "nodes sys a = Some s" and mem: "a \<in> set (requesting sys)"
    and sys': "sys' = sys\<lparr>nodes := (nodes sys)(a \<mapsto> request_print_access_grant s),
                       requesting := remove1 a (requesting sys)\<rparr>"
    using st by (auto simp: split_beta Let_def split: option.splits if_splits)
  have count: "count_list (requesting sys) a = Suc (count_list (remove1 a (requesting sys)) a)"
    using mem by (rule count_list_remove1_in)
  have before: "single_ok (count_list (requesting sys) a) s"
    using inv s by (simp add: single_invariant_def)
  have "single_ok (Suc (count_list (remove1 a (requesting sys)) a)) s"
    by (subst count [symmetric]) (rule before)
  then have "single_ok (count_list (remove1 a (requesting sys)) a) (request_print_access_grant s)"
    by (rule single_ok_grant)
  then show ?thesis
    using inv unfolding single_invariant_def sys' by (auto simp: count_list_remove1_other)
next
  case (Release a)
  then obtain s where s: "nodes sys a = Some s"
    and sys': "nodes sys' = (nodes sys)(a \<mapsto> fst (release_access (\<lambda>_. True) s))"
              "requesting sys' = requesting sys"
    using st by (auto simp: split_beta Let_def split: option.splits if_splits)
  have "single_ok (count_list (requesting sys) a) s"
    using inv s by (simp add: single_invariant_def)
  then have "single_ok (count_list (requesting sys) a) (fst (release_access (\<lambda>_. True) s))"
    by (rule single_ok_release)
  then show ?thesis
    using inv unfolding single_invariant_def sys' by auto
next
  case (Release_delivered a b)
  then obtain sb m where sb: "nodes sys b = Some sb"
    and sys': "sys' = sys\<lparr>nodes := (nodes sys)(b \<mapsto> ReleaseAccess m sb),
                    release_threads := remove_thread a b (release_threads sys)\<rparr>"
    using st by (auto simp: split_beta Let_def split: option.splits if_splits)
  have "single_ok (count_list (requesting sys) b) sb"
    using inv sb by (simp add: single_invariant_def)
  then have "single_ok (count_list (requesting sys) b) (ReleaseAccess m sb)"
    by (rule single_ok_ReleaseAccess)
  then show ?thesis
    using inv unfolding single_invariant_def sys' by auto
qed

lemma run_keeps_single_invariant:
  "single_invariant sys \<Longrightarrow> run_one_at_a_time es sys = Some sys' \<Longrightarrow> single_invariant sys'"
proof (induction es arbitrary: sys)
  case Nil
  then show ?case by simp
next
  case (Cons e es)
  from Cons.prems(2) obtain mid where ok: "one_at_a_time e sys"
    and mid: "step e sys = Some mid" and rest: "run_one_at_a_time es mid = Some sys'"
    by (auto split: option.splits if_splits)
  from Cons.prems(1) ok mid have "single_invariant mid" by (rule step_keeps_single_invariant)
  then show ?case using rest by (rule Cons.IH)
qed

lemma two_peers_single_invariant: "single_invariant two_peers"
  by (simp add: single_invariant_def single_ok_def two_peers_def new_client_node_def
        initialize_grpc_def)

lemma one_at_a_time_waiting_queue:
  assumes "run_one_at_a_time es two_peers = Some sys" and "nodes sys a = Some s"
  shows "waiting_for_access s \<longrightarrow> (\<exists>pending. request_queue s = [pending])"
proof -
  have "single_invariant sys"
    using two_peers_single_invariant assms(1) by (rule run_keeps_single_invariant)
  then have "single_ok (count_list (requesting sys) a) s"
    using assms(2) by (simp add: single_invariant_def)
  then show ?thesis
    by (auto simp: single_ok_def length_Suc_conv split: if_splits)
qed


section \<open>Properties of the request handler\<close>

lemmas node_defs = new_client_node_def initialize_grpc_def log_to_def evaluate_access_request_def
  RequestAccess_def ReleaseAccess_def request_print_access_register_def broadcast_access_request_def
  send_access_request_to_peer_def request_print_access_grant_def release_access_def
  build_access_request_def build_access_response_def build_access_release_def
  tick_def send_event_def receive_event_def get_time_def new_clock_def Let_def
  node1_waiting_def node1_held_def node1_deferring_def node1_overlapped_def node1_stale_def
  peer1_def peer2_def

lemma evaluate_access_request_table:
  assumes "waiting_for_access s \<longrightarrow> request_queue s = [pending]"
  shows "fst (fst (evaluate_access_request r s))
           = (rule_table (state_of s) (pend_lamport_timestamp pending) (client_id s) r = Defer)"
proof (cases "waiting_for_access s")
  case True
  with assms have "request_queue s = [pending]" by simp
  with True show ?thesis
    by (simp add: evaluate_access_request_def state_of_def Let_def)
next
  case False
  then show ?thesis
    by (simp add: evaluate_access_request_def state_of_def Let_def)
qed

lemma evaluate_access_request_frame:
  "deferred_replies (snd (evaluate_access_request r s)) = deferred_replies s
   \<and> clock (snd (evaluate_access_request r s)) = clock s
   \<and> has_access (snd (evaluate_access_request r s)) = has_access s
   \<and> logged (snd (evaluate_access_request r s)) = logged s"
  by (simp add: evaluate_access_request_def Let_def)

lemma evaluate_access_request_clock:
  "fst (evaluate_access_request r (s\<lparr>clock := c\<rparr>)) = fst (evaluate_access_request r s)"
  by (simp add: evaluate_access_request_def Let_def)

lemma rule_table_lex:
  "(rule_table st T own r = Grant)
     = (st = IDLE \<or> (st = WAITING \<and> (req_lamport_timestamp r, req_client_id r) < (T, own)))"
  by (cases st) (auto simp: less_prod_def)

lemma RequestAccess_granted:
  "resp_access_granted (fst (RequestAccess r s)) = (\<not> fst (fst (evaluate_access_request r s)))"
proof -
  have "resp_access_granted (fst (RequestAccess r s))
          = (\<not> fst (fst (evaluate_access_request r
                (s\<lparr>clock := snd (receive_event (req_lamport_timestamp r) (clock s))\<rparr>))))"
    by (simp add: RequestAccess_def Let_def split_beta tick_def build_access_response_def)
  then show ?thesis by (simp add: evaluate_access_request_clock)
qed

lemma RequestAccess_deferred_table:
  "deferred_replies (snd (RequestAccess r s)) =
     (if fst (fst (evaluate_access_request r s)) \<and> map_of (deferred_replies s) (req_client_id r) = None
      then deferred_replies s @ [(req_client_id r, r)] else deferred_replies s)"
proof -
  have "deferred_replies (snd (RequestAccess r s)) =
     (if fst (fst (evaluate_access_request r
                (s\<lparr>clock := snd (receive_event (req_lamport_timestamp r) (clock s))\<rparr>)))
         \<and> map_of (deferred_replies s) (req_client_id r) = None
      then deferred_replies s @ [(req_client_id r, r)] else deferred_replies s)"
    by (simp add: RequestAccess_def Let_def split_beta tick_def log_to_def
          evaluate_access_request_frame get_time_def)
  then show ?thesis by (simp add: evaluate_access_request_clock)
qed

lemma RequestAccess_keys_distinct:
  "distinct (map fst (deferred_replies s))
     \<Longrightarrow> distinct (map fst (deferred_replies (snd (RequestAccess r s))))"
  by (auto simp: RequestAccess_deferred_table map_of_eq_None_iff)

lemma RequestAccess_keys_are_peer_ids:
  "list_all (\<lambda>(k, q). k = req_client_id q) (deferred_replies s)
     \<Longrightarrow> list_all (\<lambda>(k, q). k = req_client_id q) (deferred_replies (snd (RequestAccess r s)))"
  by (simp add: RequestAccess_deferred_table)

text \<open>
  C2, as stated, fails in its last part: a deferred request is not recorded when the table
  already holds an entry for the same peer. Peer 1 holds access and has deferred the
  request of peer 2 with timestamp 5; peer 2's next request, with timestamp 9, is deferred
  by the rule table and answered with \<open>access_granted = false\<close>, and the table afterwards
  still holds the request with timestamp 5 only.
\<close>

theorem deferred_request_recorded_counterexample:
  "state_of node1_deferring = HELD
   \<and> deferred_replies node1_deferring = [(2, build_access_request 2 5 1)]
   \<and> request_queue node1_deferring
       = [\<lparr>pend_client_id = 1, pend_lamport_timestamp = 1, pend_request_number = 1\<rparr>]
   \<and> rule_table (state_of node1_deferring) 1 (client_id node1_deferring)
        (build_access_request 2 9 2) = Defer
   \<and> resp_access_granted (fst (RequestAccess (build_access_request 2 9 2) node1_deferring)) = False
   \<and> deferred_replies (snd (RequestAccess (build_access_request 2 9 2) node1_deferring))
       = [(2, build_access_request 2 5 1)]
   \<and> build_access_request 2 9 2 \<noteq> build_access_request 2 5 1"
  by (simp add: node_defs state_of_def)

text \<open>
  The table and the code part when the queue holds more than the pending request. In
  \<open>node1_stale\<close> the peer is waiting, its pending request has timestamp 8 and the queue
  still holds the served request with timestamp 2. For the request of peer 2 with
  timestamp 5 the rule table at \<open>T_own = 8\<close> grants; \<open>RequestAccess\<close> compares with
  the first entry of the sorted queue, timestamp 2, and defers.
\<close>

lemma stale_queue_entry_defers:
  "state_of node1_stale = WAITING
   \<and> fst (request_print_access_register node1_overlapped)
       = \<lparr>pend_client_id = 1, pend_lamport_timestamp = 8, pend_request_number = 3\<rparr>
   \<and> request_queue node1_stale
       = [\<lparr>pend_client_id = 1, pend_lamport_timestamp = 2, pend_request_number = 2\<rparr>,
          \<lparr>pend_client_id = 1, pend_lamport_timestamp = 8, pend_request_number = 3\<rparr>]
   \<and> rule_table WAITING 8 1 (build_access_request 2 5 1) = Grant
   \<and> resp_access_granted (fst (RequestAccess (build_access_request 2 5 1) node1_stale)) = False"
  by (simp add: node_defs state_of_def)

text \<open>
  C2, amended. For every incoming \<open>AccessRequest\<close> \<open>r\<close> handled by a peer in state \<open>S\<close>
  whose queue, while it is flagged as waiting, holds its pending request and nothing else
  (as in every run in which the peer's jobs do not overlap), with \<open>T_own\<close> the
  timestamp of that pending request: the decision of \<open>_evaluate_access_request\<close> is the
  one of the rule table, defer in \<open>HELD\<close>, grant in \<open>IDLE\<close>, and in \<open>WAITING\<close> grant
  exactly when \<open>(r.ts, r.peer_id)\<close> is below \<open>(T_own, own_id)\<close> in the strict
  lexicographic order. The reply of \<open>RequestAccess\<close> carries \<open>access_granted = false\<close>
  exactly when the decision is defer. The table after the call is the table before it,
  with \<open>r\<close> appended under \<open>r.peer_id\<close> exactly when the decision is defer and the
  table had no entry for that peer; so after a deferral the table has an entry for the
  peer. Nothing is said for a queue that holds other entries beside the pending request.
\<close>

theorem request_access_follows_rule_table:
  assumes "waiting_for_access s \<longrightarrow> request_queue s = [pending]"
  shows "(rule_table (state_of s) (pend_lamport_timestamp pending) (client_id s) r = Grant)
           = (state_of s = IDLE
              \<or> (state_of s = WAITING
                  \<and> (req_lamport_timestamp r, req_client_id r)
                      < (pend_lamport_timestamp pending, client_id s)))
       \<and> fst (fst (evaluate_access_request r s))
           = (rule_table (state_of s) (pend_lamport_timestamp pending) (client_id s) r = Defer)
       \<and> (resp_access_granted (fst (RequestAccess r s)) = False)
           = (rule_table (state_of s) (pend_lamport_timestamp pending) (client_id s) r = Defer)
       \<and> deferred_replies (snd (RequestAccess r s))
           = (if rule_table (state_of s) (pend_lamport_timestamp pending) (client_id s) r = Defer
                 \<and> map_of (deferred_replies s) (req_client_id r) = None
              then deferred_replies s @ [(req_client_id r, r)] else deferred_replies s)
       \<and> (rule_table (state_of s) (pend_lamport_timestamp pending) (client_id s) r = Defer \<longrightarrow>
            map_of (deferred_replies (snd (RequestAccess r s))) (req_client_id r) \<noteq> None)"
proof -
  let ?d = "rule_table (state_of s) (pend_lamport_timestamp pending) (client_id s) r"
  have table: "fst (fst (evaluate_access_request r s)) = (?d = Defer)"
    using assms by (rule evaluate_access_request_table)
  have lex: "(?d = Grant)
           = (state_of s = IDLE
              \<or> (state_of s = WAITING
                  \<and> (req_lamport_timestamp r, req_client_id r)
                      < (pend_lamport_timestamp pending, client_id s)))"
    by (rule rule_table_lex)
  have reply: "(resp_access_granted (fst (RequestAccess r s)) = False) = (?d = Defer)"
    using table by (simp add: RequestAccess_granted)
  have after: "deferred_replies (snd (RequestAccess r s))
           = (if ?d = Defer \<and> map_of (deferred_replies s) (req_client_id r) = None
              then deferred_replies s @ [(req_client_id r, r)] else deferred_replies s)"
    using table by (simp add: RequestAccess_deferred_table)
  have entry: "?d = Defer \<longrightarrow>
            map_of (deferred_replies (snd (RequestAccess r s))) (req_client_id r) \<noteq> None"
    unfolding after by (auto simp: map_add_def split: option.splits)
  from lex table reply after entry show ?thesis by blast
qed

theorem request_access_follows_rule_table_witness:
  "waiting_for_access node1_waiting
   \<and> request_queue node1_waiting
       = [\<lparr>pend_client_id = 1, pend_lamport_timestamp = 1, pend_request_number = 1\<rparr>]
   \<and> state_of node1_waiting = WAITING
   \<and> rule_table WAITING 1 1 (build_access_request 2 1 1) = Defer
   \<and> resp_access_granted (fst (RequestAccess (build_access_request 2 1 1) node1_waiting)) = False
   \<and> deferred_replies (snd (RequestAccess (build_access_request 2 1 1) node1_waiting))
        = [(2, build_access_request 2 1 1)]"
  using request_access_follows_rule_table
    [of node1_waiting "\<lparr>pend_client_id = 1, pend_lamport_timestamp = 1, pend_request_number = 1\<rparr>"
        "build_access_request 2 1 1"]
  by (simp add: node_defs state_of_def)

text \<open>
  C6, as stated, fails: the handler adds a deferred request only when the table has no
  entry for the peer. Peer 1 is waiting with its own timestamp 1; it defers the request
  of peer 2 with timestamp 4, then peer 2's request with timestamp 8, and the entry for
  peer 2 is not the later request.
\<close>

theorem deferred_supersession_counterexample:
  "state_of node1_waiting = WAITING
   \<and> deferred_replies (snd (RequestAccess (build_access_request 2 4 1) node1_waiting))
       = [(2, build_access_request 2 4 1)]
   \<and> resp_access_granted
        (fst (RequestAccess (build_access_request 2 8 2)
               (snd (RequestAccess (build_access_request 2 4 1) node1_waiting)))) = False
   \<and> map_of (deferred_replies
        (snd (RequestAccess (build_access_request 2 8 2)
               (snd (RequestAccess (build_access_request 2 4 1) node1_waiting))))) 2
       \<noteq> Some (build_access_request 2 8 2)"
  by (simp add: node_defs state_of_def)

text \<open>
  C6, amended. The deferred-reply table is keyed by \<open>peer_id\<close>: the handler keeps its
  keys distinct and each key equal to the peer identifier of the request stored under it.
  If another \<open>AccessRequest\<close> arrives from a peer that has an entry in the table, the
  table is left as it is: the earlier request stays and the later one is not recorded.
\<close>

theorem deferred_entry_kept:
  "(distinct (map fst (deferred_replies s)) \<longrightarrow>
      distinct (map fst (deferred_replies (snd (RequestAccess r s)))))
   \<and> (list_all (\<lambda>(k, q). k = req_client_id q) (deferred_replies s) \<longrightarrow>
      list_all (\<lambda>(k, q). k = req_client_id q) (deferred_replies (snd (RequestAccess r s))))
   \<and> (map_of (deferred_replies s) (req_client_id r) = Some earlier \<longrightarrow>
        deferred_replies (snd (RequestAccess r s)) = deferred_replies s
        \<and> map_of (deferred_replies (snd (RequestAccess r s))) (req_client_id r) = Some earlier)"
  using RequestAccess_keys_distinct [of s r] RequestAccess_keys_are_peer_ids [of s r]
  by (simp add: RequestAccess_deferred_table)

theorem deferred_entry_kept_witness:
  "distinct (map fst (deferred_replies node1_deferring))
   \<and> list_all (\<lambda>(k, q). k = req_client_id q) (deferred_replies node1_deferring)
   \<and> map_of (deferred_replies node1_deferring) (req_client_id (build_access_request 2 9 2))
       = Some (build_access_request 2 5 1)
   \<and> deferred_replies (snd (RequestAccess (build_access_request 2 9 2) node1_deferring))
       = [(2, build_access_request 2 5 1)]"
  using deferred_entry_kept [of node1_deferring "build_access_request 2 9 2" "build_access_request 2 5 1"]
  by (simp add: node_defs)


section \<open>Properties of requesting and releasing access\<close>

text \<open>
  C7, as stated, fails in its first part: \<open>request_print_access\<close> does not look at the
  state. Called on a peer that holds access, it logs no warning and registers a second
  request: the counter goes from 1 to 2, the queue has two entries and
  \<open>waiting_for_access\<close> is set.
\<close>

theorem request_requires_idle_counterexample:
  "state_of node1_held = HELD
   \<and> request_number node1_held = 1
   \<and> request_number (snd (request_print_access_register node1_held)) = 2
   \<and> length (request_queue (snd (request_print_access_register node1_held))) = 2
   \<and> waiting_for_access (snd (request_print_access_register node1_held))
   \<and> filter (\<lambda>entry. fst entry = WARNING)
        (logged (snd (request_print_access_register node1_held))) = []"
  by (simp add: node_defs state_of_def)

text \<open>
  C7, amended. \<open>request_print_access\<close> has no precondition on the state. In every state
  its first block increments the request counter, obtains \<open>T_own\<close> from \<open>send_event()\<close>,
  constructs the pending record and appends it to the queue, sets \<open>outstanding\<close> to the set
  of peer addresses (the peers other than the node itself), clears \<open>received\<close>, sets
  \<open>waiting_for_access\<close>, leaves \<open>has_access\<close> as it is and logs one \<open>INFO\<close> line; from
  \<open>IDLE\<close> this is the transition to \<open>WAITING\<close>.
\<close>

theorem request_print_access_registers:
  "request_number (snd (request_print_access_register s)) = request_number s + 1
   \<and> time (clock (snd (request_print_access_register s))) = time (clock s) + 1
   \<and> fst (request_print_access_register s)
       = \<lparr>pend_client_id = client_id s, pend_lamport_timestamp = fst (send_event (clock s)),
          pend_request_number = request_number s + 1\<rparr>
   \<and> request_queue (snd (request_print_access_register s))
       = request_queue s @ [fst (request_print_access_register s)]
   \<and> outstanding_replies (snd (request_print_access_register s)) = set (peer_addresses s)
   \<and> received_replies (snd (request_print_access_register s)) = {}
   \<and> waiting_for_access (snd (request_print_access_register s))
   \<and> has_access (snd (request_print_access_register s)) = has_access s
   \<and> logged (snd (request_print_access_register s))
       = logged s @ [(INFO, Requesting_access (request_number s + 1) (time (clock s) + 1),
                      time (clock s) + 1)]
   \<and> (state_of s = IDLE \<longrightarrow> state_of (snd (request_print_access_register s)) = WAITING)"
  by (simp add: request_print_access_register_def send_event_def tick_def log_to_def Let_def
        state_of_def)

theorem request_print_access_registers_witness:
  "state_of (initialize_grpc (new_client_node 1 [peer2])) = IDLE
   \<and> state_of (snd (request_print_access_register (initialize_grpc (new_client_node 1 [peer2]))))
       = WAITING
   \<and> outstanding_replies (snd (request_print_access_register (initialize_grpc (new_client_node 1 [peer2]))))
       = {peer2}"
  using request_print_access_registers [of "initialize_grpc (new_client_node 1 [peer2])"]
  by (simp add: new_client_node_def initialize_grpc_def state_of_def)

lemma complete_threads_none: "complete_threads batch (s, []) = (s, [])"
  by (induction batch) auto

text \<open>
  C10. For a node whose \<open>peer_addresses\<close> is empty, \<open>request_print_access\<close> returns
  whatever the environment does: no sender thread is started, the loop condition is false
  at its first check so that the node never waits, no reply is recorded, and the node ends
  with \<open>has_access = true\<close> and \<open>waiting_for_access = false\<close>.
\<close>

theorem solitary_peer_enters:
  assumes "peer_addresses s = []"
  shows "\<exists>s'. request_print_access early schedule s = Some (s', 0)
           \<and> has_access s' \<and> \<not> waiting_for_access s' \<and> received_replies s' = {}
           \<and> broadcast_access_request (fst (request_print_access_register s))
                (snd (request_print_access_register s)) = []"
proof -
  obtain pending s1 where reg: "request_print_access_register s = (pending, s1)"
    by (cases "request_print_access_register s")
  have peers: "peer_addresses s1 = []"
    using reg assms
    by (auto simp: request_print_access_register_def send_event_def tick_def log_to_def Let_def)
  have received: "received_replies s1 = {}"
    using reg
    by (auto simp: request_print_access_register_def send_event_def tick_def log_to_def Let_def)
  have threads: "broadcast_access_request pending s1 = []"
    using peers by (simp add: broadcast_access_request_def)
  have wait: "wait_for_replies schedule 0 (s1, []) = Some (s1, 0)"
    using peers by (cases schedule) simp_all
  have "request_print_access early schedule s = Some (request_print_access_grant s1, 0)"
    using reg threads wait by (simp add: request_print_access_def complete_threads_none)
  moreover have "has_access (request_print_access_grant s1)"
    and "\<not> waiting_for_access (request_print_access_grant s1)"
    and "received_replies (request_print_access_grant s1) = {}"
    using received by (simp_all add: request_print_access_grant_def log_to_def)
  ultimately show ?thesis using reg threads by simp
qed

theorem solitary_peer_enters_witness:
  "peer_addresses (new_client_node 1 []) = []
   \<and> map_option (\<lambda>(s', waits). (has_access s', waiting_for_access s', received_replies s', waits))
        (request_print_access [] [] (new_client_node 1 [])) = Some (True, False, {}, 0)"
  using solitary_peer_enters [of "new_client_node 1 []" "[]" "[]"]
  by (auto simp: new_client_node_def)

lemma release_access_sends_only_releases:
  "has_access s \<Longrightarrow>
     snd (release_access rpc_ok s)
       = map (\<lambda>peer_addr. Send_access_release peer_addr
                (build_access_release (client_id s) (time (clock s) + 1) (request_number s)))
           (peer_addresses s)
     \<and> deferred_replies (fst (release_access rpc_ok s)) = []"
  by (simp add: release_access_def send_event_def tick_def log_to_def Let_def)

text \<open>
  C3 on the code. Peer 1 holds access and has one deferred request, from peer 2.
  \<open>release_access\<close> sends the \<open>AccessRelease\<close> to its peer and nothing else: no
  \<open>ReplyToAccessRequest\<close> with \<open>access_granted = true\<close> goes to peer 2. The table is empty
  afterwards and the peer is \<open>IDLE\<close>, so the deferred grant is never sent.
\<close>

theorem release_sends_no_deferred_grant:
  "state_of node1_deferring = HELD
   \<and> deferred_replies node1_deferring = [(2, build_access_request 2 5 1)]
   \<and> snd (release_access (\<lambda>peer_addr. True) node1_deferring)
       = [Send_access_release peer2 (build_access_release 1 8 1)]
   \<and> deferred_replies (fst (release_access (\<lambda>peer_addr. True) node1_deferring)) = []
   \<and> state_of (fst (release_access (\<lambda>peer_addr. True) node1_deferring)) = IDLE"
  by (simp add: node_defs state_of_def)


section \<open>Mutual exclusion in the two-peer system\<close>

text \<open>
  C1 on the code. Two traces of the two-peer system end with both peers holding access.
  In the first no call fails: peer 1 enters, then peer 2 requests, peer 1 defers and
  answers \<open>access_granted = false\<close>, peer 2 counts the answer as a reply and enters. In the
  second peer 2 enters, then peer 1 requests, its call to peer 2 fails, the error branch
  counts peer 2 as having replied and peer 1 enters.
\<close>

theorem two_peers_both_held:
  "map_option (\<lambda>sys. (holds sys peer1, holds sys peer2))
     (run [Register peer1, Request_delivered peer1 peer2, Enter peer1,
           Register peer2, Request_delivered peer2 peer1, Enter peer2] two_peers)
     = Some (True, True)
   \<and> map_option (\<lambda>sys. (holds sys peer1, holds sys peer2))
     (run [Register peer2, Request_delivered peer2 peer1, Enter peer2,
           Register peer1, Request_failed peer1 peer2, Enter peer1] two_peers)
     = Some (True, True)
   \<and> peer1 \<noteq> peer2"
  by (simp add: two_peers_def node_defs holds_def)

section \<open>Properties of the printer service\<close>

lemma digit_char_digit: "d < 10 \<Longrightarrow> digit_char d \<in> set ''0123456789''"
proof -
  assume "d < 10"
  then have "d \<in> {0, 1, 2, 3, 4, 5, 6, 7, 8, 9}" by auto
  then show ?thesis unfolding digit_char_def by auto
qed

lemma str_nat_digits: "set (str_nat n) \<subseteq> set ''0123456789''"
proof (induction n rule: str_nat.induct)
  case (1 n)
  show ?case
  proof (cases "n < 10")
    case True
    then show ?thesis using digit_char_digit [of n] by (subst str_nat.simps) simp
  next
    case False
    have "n mod 10 < 10" by simp
    then have "digit_char (n mod 10) \<in> set ''0123456789''" by (rule digit_char_digit)
    moreover have "set (str_nat (n div 10)) \<subseteq> set ''0123456789''" using False by (rule 1)
    ultimately show ?thesis using False by (subst str_nat.simps) simp
  qed
qed

lemma str_int_no_bracket: "CHR '']'' \<notin> set (str_int i)"
  using str_nat_digits [of "nat i"] str_nat_digits [of "nat (- i)"]
  by (auto simp: str_int_def)

lemma split_at_first:
  "x \<notin> set xs \<Longrightarrow> x \<notin> set xs' \<Longrightarrow> xs @ x # ys = xs' @ x # ys' \<Longrightarrow> ys = ys'"
proof (induction xs arbitrary: xs')
  case Nil
  then show ?case by (cases xs') auto
next
  case (Cons a xs)
  then show ?case by (cases xs') auto
qed

lemma server_line_not_client_line:
  "\<not> client_line ts cid (info None message (Some t) now)"
proof
  assume "client_line ts cid (info None message (Some t) now)"
  then obtain r where eq:
    "''[TS: '' @ str_int t @ ''] SERVIDOR: '' @ ''INFO: '' @ message
       = (''[TS: '' @ str_int ts @ ''] CLIENTE '' @ str_int cid @ '': '') @ r"
    by (auto simp: client_line_def info_def format_message_def prefix_def)
  then have "str_int t @ CHR '']'' # ('' SERVIDOR: '' @ ''INFO: '' @ message)
       = str_int ts @ CHR '']'' # ('' CLIENTE '' @ str_int cid @ '': '' @ r)"
    by simp
  with str_int_no_bracket [of t] str_int_no_bracket [of ts]
  have "'' SERVIDOR: '' @ ''INFO: '' @ message = '' CLIENTE '' @ str_int cid @ '': '' @ r"
    by (rule split_at_first)
  then show False by simp
qed

lemma job_line_client_line:
  "client_line (job_lamport_timestamp request) (job_client_id request) (job_line request)"
  by (simp add: client_line_def job_line_def)

lemma uniform_between:
  assumes "a \<le> b" and "0 \<le> u" and "u \<le> 1"
  shows "a \<le> uniform a b u \<and> uniform a b u \<le> b"
proof -
  have nonneg: "0 \<le> b - a" using assms(1) by simp
  have lower: "0 \<le> (b - a) * u" using nonneg assms(2) by simp
  have "(b - a) * u \<le> (b - a) * 1" using nonneg assms(3) by (rule mult_left_mono [rotated])
  then have upper: "(b - a) * u \<le> b - a" by simp
  from lower upper show ?thesis by (simp add: uniform_def)
qed

text \<open>
  C8. For every print job, a printer whose delays satisfy \<open>delay_min \<le> delay_max\<close> and
  every draw \<open>u\<close> of the random generator in \<open>[0, 1)\<close>: \<open>SendToPrinter\<close> merges the
  printer's clock with the job's timestamp and advances it once more (the clock ends at
  \<open>max(local, job.ts) + 2\<close>); it prints the job line, which carries the client's timestamp
  and identifier in the peers' format, and it is the only printed line that does (the
  second and last printed line is the printer's own \<open>SERVIDOR\<close> confirmation line with the
  response timestamp); it sleeps once, for a duration in \<open>[delay_min, delay_max]\<close>; and the
  response has \<open>success = true\<close>, the confirmation message and the clock's value after
  the advance. The response step alone answers \<open>success = true\<close> from every state.
\<close>

theorem send_to_printer_contract:
  assumes "print_delay_min svc \<le> print_delay_max svc" and "0 \<le> u" and "u < 1"
  shows "printed (fst (snd (SendToPrinter request u now svc)))
           = [job_line request,
              info None (confirmation_sent (job_client_id request))
                (Some (conf_lamport_timestamp (fst (SendToPrinter request u now svc)))) now]
       \<and> length (filter (client_line (job_lamport_timestamp request) (job_client_id request))
                   (printed (fst (snd (SendToPrinter request u now svc))))) = 1
       \<and> slept (fst (snd (SendToPrinter request u now svc)))
           = [uniform (print_delay_min svc) (print_delay_max svc) u]
       \<and> print_delay_min svc \<le> uniform (print_delay_min svc) (print_delay_max svc) u
       \<and> uniform (print_delay_min svc) (print_delay_max svc) u \<le> print_delay_max svc
       \<and> time (printer_clock (snd (snd (SendToPrinter request u now svc))))
           = max (time (printer_clock svc)) (job_lamport_timestamp request) + 2
       \<and> conf_success (fst (SendToPrinter request u now svc)) = True
       \<and> conf_confirmation_message (fst (SendToPrinter request u now svc))
           = ''Documento do cliente '' @ str_int (job_client_id request) @ '' impresso com sucesso''
       \<and> conf_lamport_timestamp (fst (SendToPrinter request u now svc))
           = time (printer_clock (snd (snd (SendToPrinter request u now svc))))
       \<and> conf_success (fst (SendToPrinter_respond request now svc)) = True
       \<and> conf_lamport_timestamp (fst (SendToPrinter_respond request now svc))
           = time (printer_clock svc) + 1"
proof -
  have delay: "print_delay_min svc \<le> uniform (print_delay_min svc) (print_delay_max svc) u
       \<and> uniform (print_delay_min svc) (print_delay_max svc) u \<le> print_delay_max svc"
    using assms by (intro uniform_between) simp_all
  have lines: "printed (fst (snd (SendToPrinter request u now svc)))
           = [job_line request,
              info None (confirmation_sent (job_client_id request))
                (Some (conf_lamport_timestamp (fst (SendToPrinter request u now svc)))) now]"
    by (simp add: SendToPrinter_def SendToPrinter_receive_def SendToPrinter_respond_def
          receive_event_def tick_def build_print_response_def Let_def)
  have one: "length (filter (client_line (job_lamport_timestamp request) (job_client_id request))
                   (printed (fst (snd (SendToPrinter request u now svc))))) = 1"
    unfolding lines by (simp add: job_line_client_line server_line_not_client_line)
  have rest: "slept (fst (snd (SendToPrinter request u now svc)))
           = [uniform (print_delay_min svc) (print_delay_max svc) u]
       \<and> time (printer_clock (snd (snd (SendToPrinter request u now svc))))
           = max (time (printer_clock svc)) (job_lamport_timestamp request) + 2
       \<and> conf_success (fst (SendToPrinter request u now svc)) = True
       \<and> conf_confirmation_message (fst (SendToPrinter request u now svc))
           = ''Documento do cliente '' @ str_int (job_client_id request) @ '' impresso com sucesso''
       \<and> conf_lamport_timestamp (fst (SendToPrinter request u now svc))
           = time (printer_clock (snd (snd (SendToPrinter request u now svc))))"
    by (simp add: SendToPrinter_def SendToPrinter_receive_def SendToPrinter_respond_def
          receive_event_def tick_def build_print_response_def Let_def)
  have respond: "conf_success (fst (SendToPrinter_respond request now svc)) = True
       \<and> conf_lamport_timestamp (fst (SendToPrinter_respond request now svc))
           = time (printer_clock svc) + 1"
    by (simp add: SendToPrinter_respond_def tick_def build_print_response_def Let_def)
  from delay lines one rest respond show ?thesis by simp
qed

theorem send_to_printer_contract_witness:
  "print_delay_min (new_printing_service 2 3) \<le> print_delay_max (new_printing_service 2 3)
   \<and> (0::real) \<le> 1 / 2 \<and> (1::real) / 2 < 1
   \<and> printed (fst (snd (SendToPrinter job1 (1 / 2) 0 (new_printing_service 2 3))))
       = [''[TS: 5] CLIENTE 1: Documento #1 do cliente 1'',
          ''[TS: 7] SERVIDOR: INFO: Confirma'' @ [CHR 0xE7, CHR 0xE3] @ ''o enviada para cliente 1'']
   \<and> slept (fst (snd (SendToPrinter job1 (1 / 2) 0 (new_printing_service 2 3)))) = [5 / 2]
   \<and> conf_success (fst (SendToPrinter job1 (1 / 2) 0 (new_printing_service 2 3)))
   \<and> conf_lamport_timestamp (fst (SendToPrinter job1 (1 / 2) 0 (new_printing_service 2 3))) = 7"
  using send_to_printer_contract [of "new_printing_service 2 3" "1 / 2" job1 0]
  by (simp add: new_printing_service_def new_clock_def job1_def job_line_def info_def
        format_message_def confirmation_sent_def uniform_def str_int_def str_nat.simps digit_char_def
        SendToPrinter_def SendToPrinter_receive_def SendToPrinter_respond_def
        receive_event_def tick_def build_print_response_def Let_def)


section \<open>Properties of the command lines\<close>

lemma valid_arguments_start:
  "(client_args_valid cargs \<longrightarrow>
      fst (client_main cargs)
        = [Start_client (arg_id cargs) (arg_port cargs) (arg_server cargs) (arg_clients cargs)
             (arg_job_interval_min cargs) (arg_job_interval_max cargs)])
   \<and> (printer_args_valid pargs \<longrightarrow>
      fst (printer_main pargs)
        = [Serve (arg_printer_port pargs) (arg_delay_min pargs) (arg_delay_max pargs)])"
  by (auto simp: printer_args_valid_def printer_main_def client_args_valid_def client_main_def)

text \<open>
  C9, as stated, fails: after a failed validation \<open>main\<close> prints its error line and
  returns, and the process ends with exit status 0, for the printer (a negative
  \<open>--delay-min\<close>) as for the peer (\<open>--job-interval-min\<close> above \<open>--job-interval-max\<close>).
\<close>

theorem validation_failure_exit_code_counterexample:
  "\<not> printer_args_valid \<lparr>arg_printer_port = 50051, arg_delay_min = - 1, arg_delay_max = 3\<rparr>
   \<and> snd (printer_main \<lparr>arg_printer_port = 50051, arg_delay_min = - 1, arg_delay_max = 3\<rparr>) = 0
   \<and> \<not> client_args_valid \<lparr>arg_id = 1, arg_port = 50052, arg_server = ''localhost:50051'',
          arg_clients = [], arg_job_interval_min = 10, arg_job_interval_max = 5\<rparr>
   \<and> snd (client_main \<lparr>arg_id = 1, arg_port = 50052, arg_server = ''localhost:50051'',
          arg_clients = [], arg_job_interval_min = 10, arg_job_interval_max = 5\<rparr>) = 0"
  by (simp add: printer_args_valid_def printer_main_def client_args_valid_def client_main_def)

text \<open>
  C9, amended. For every invocation of the peer or printer command line with arguments
  that fail validation (a negative interval or delay, or a minimum above the maximum),
  \<open>main\<close> prints one error line and returns before any port is opened; the exit status
  is 0, as it is on clean shutdown.
\<close>

theorem validation_failure_returns_before_port:
  "(\<not> client_args_valid cargs \<longrightarrow>
      list_all (\<lambda>e. \<not> opens_port e) (fst (client_main cargs))
      \<and> (\<exists>line. fst (client_main cargs) = [Print_line line]))
   \<and> (\<not> printer_args_valid pargs \<longrightarrow>
      list_all (\<lambda>e. \<not> opens_port e) (fst (printer_main pargs))
      \<and> (\<exists>line. fst (printer_main pargs) = [Print_line line]))
   \<and> snd (client_main cargs) = 0
   \<and> snd (printer_main pargs) = 0"
  by (auto simp: printer_args_valid_def printer_main_def client_args_valid_def client_main_def)

theorem validation_failure_returns_before_port_witness:
  "\<not> client_args_valid \<lparr>arg_id = 1, arg_port = 50052, arg_server = ''localhost:50051'',
          arg_clients = [], arg_job_interval_min = - 5, arg_job_interval_max = 10\<rparr>
   \<and> \<not> printer_args_valid \<lparr>arg_printer_port = 50051, arg_delay_min = 3, arg_delay_max = 2\<rparr>
   \<and> client_main \<lparr>arg_id = 1, arg_port = 50052, arg_server = ''localhost:50051'',
          arg_clients = [], arg_job_interval_min = - 5, arg_job_interval_max = 10\<rparr>
       = ([Print_line ''Erro: Intervalos de job devem ser valores positivos''], 0)
   \<and> printer_main \<lparr>arg_printer_port = 50051, arg_delay_min = 3, arg_delay_max = 2\<rparr>
       = ([Print_line ''Erro: delay-min deve ser menor ou igual a delay-max''], 0)"
  using validation_failure_returns_before_port
    [of "\<lparr>arg_id = 1, arg_port = 50052, arg_server = ''localhost:50051'',
          arg_clients = [], arg_job_interval_min = - 5, arg_job_interval_max = 10\<rparr>"
        "\<lparr>arg_printer_port = 50051, arg_delay_min = 3, arg_delay_max = 2\<rparr>"]
  by (simp add: printer_args_valid_def printer_main_def client_args_valid_def client_main_def)


end
